theory Spec2Isabelle
  imports Main "HOL-Library.Multiset"
begin

section \<open>Findings (models/finding.go)\<close>

text \<open>
  The \<open>Finding\<close> struct. Go strings are byte strings, here \<open>string\<close>. The timestamp is
  the reading of \<open>time.Now()\<close> at construction; the model keeps it as a natural number
  handed to the constructor by the caller.
\<close>

record Finding =
  ResourceID :: string
  ResourceType :: string
  Severity :: string
  Title :: string
  Description :: string
  Region :: string
  Account :: string
  Timestamp :: nat

definition SeverityCritical :: string where "SeverityCritical = ''CRITICAL''"
definition SeverityHigh :: string where "SeverityHigh = ''HIGH''"
definition SeverityMedium :: string where "SeverityMedium = ''MEDIUM''"
definition SeverityLow :: string where "SeverityLow = ''LOW''"

definition ResourceS3 :: string where "ResourceS3 = ''S3_BUCKET''"
definition ResourceSecurityGroup :: string where "ResourceSecurityGroup = ''SECURITY_GROUP''"
definition ResourceEBS :: string where "ResourceEBS = ''EBS_VOLUME''"
definition ResourceIAM :: string where "ResourceIAM = ''IAM_USER''"

text \<open>
  \<open>NewFinding\<close> fills five fields and the timestamp; \<open>Region\<close> and \<open>Account\<close> keep Go's
  zero value, the empty string.
\<close>

definition NewFinding :: "nat \<Rightarrow> string \<Rightarrow> string \<Rightarrow> string \<Rightarrow> string \<Rightarrow> string \<Rightarrow> Finding" where
  "NewFinding now resourceID resourceType severity title description =
     \<lparr>ResourceID = resourceID, ResourceType = resourceType, Severity = severity,
      Title = title, Description = description, Region = [], Account = [],
      Timestamp = now\<rparr>"

definition NewCriticalFinding :: "nat \<Rightarrow> string \<Rightarrow> string \<Rightarrow> string \<Rightarrow> string \<Rightarrow> Finding" where
  "NewCriticalFinding now resourceID resourceType title description =
     NewFinding now resourceID resourceType SeverityCritical title description"

definition NewHighFinding :: "nat \<Rightarrow> string \<Rightarrow> string \<Rightarrow> string \<Rightarrow> string \<Rightarrow> Finding" where
  "NewHighFinding now resourceID resourceType title description =
     NewFinding now resourceID resourceType SeverityHigh title description"

definition NewMediumFinding :: "nat \<Rightarrow> string \<Rightarrow> string \<Rightarrow> string \<Rightarrow> string \<Rightarrow> Finding" where
  "NewMediumFinding now resourceID resourceType title description =
     NewFinding now resourceID resourceType SeverityMedium title description"

section \<open>The scanner and its finding store (scanner/scanner.go)\<close>

text \<open>
  Go errors. \<open>fmt.Errorf("prefix%w", err)\<close> wraps \<open>err\<close>; its message is the prefix
  followed by the message of \<open>err\<close>.
\<close>

datatype goerr = ApiError string | Errorf string goerr

fun Error :: "goerr \<Rightarrow> string" where
  "Error (ApiError m) = m"
| "Error (Errorf p e) = p @ Error e"

text \<open>
  The \<open>Scanner\<close> struct: the configured region and the slice of findings. The session is
  an opaque handle to the provider API; the answers of the API are the \<open>api\<close> record
  below. The mutex \<open>mu\<close> is modelled with the interleaving semantics further down.
\<close>

record Scanner =
  region :: string
  findings :: "Finding list"

text \<open>
  \<open>NewScanner\<close>: \<open>session.NewSession\<close> either fails or yields a session; its outcome is a
  parameter (\<open>Some err\<close> for failure).
\<close>

definition NewScanner :: "goerr option \<Rightarrow> string \<Rightarrow> goerr + Scanner" where
  "NewScanner sessErr r =
     (case sessErr of
        Some err \<Rightarrow> Inl (Errorf ''failed to create AWS session: '' err)
      | None \<Rightarrow> Inr \<lparr>region = r, findings = []\<rparr>)"

definition GetFindings :: "Scanner \<Rightarrow> Finding list" where
  "GetFindings s = findings s"

text \<open>
  \<open>addFinding\<close>: \<open>finding.Region = s.region\<close>, then
  \<open>s.findings = append(s.findings, finding)\<close>.
\<close>

definition addFinding :: "Finding \<Rightarrow> Scanner \<Rightarrow> Scanner" where
  "addFinding finding s =
     (let finding' = finding\<lparr>Region := region s\<rparr>
      in s\<lparr>findings := findings s @ [finding']\<rparr>)"

definition GetFindingsBySeverity :: "string \<Rightarrow> Scanner \<Rightarrow> Finding list" where
  "GetFindingsBySeverity severity s = filter (\<lambda>finding. Severity finding = severity) (findings s)"

definition GetCriticalFindings :: "Scanner \<Rightarrow> Finding list" where
  "GetCriticalFindings s = GetFindingsBySeverity SeverityCritical s"

section \<open>Provider data and the provider API\<close>

text \<open>
  The SDK structs the checks read. A field that is a pointer in the SDK (\<open>*string\<close>,
  \<open>*int64\<close>, \<open>*Grantee\<close>) is an \<open>option\<close>, \<open>None\<close> for \<open>nil\<close>. The elements of the
  SDK's slices are taken to be non-nil. Ports are \<open>int64\<close> in the SDK; the checks only
  compare them, so they are integers here.
\<close>

record Bucket =
  Name :: "string option"

record Grantee =
  URI :: "string option"

record Grant =
  Grantee :: "Grantee option"

record IpRange =
  CidrIp :: "string option"

record IpPermission =
  FromPort :: "int option"
  ToPort :: "int option"
  IpRanges :: "IpRange list"

record SecurityGroup =
  GroupId :: "string option"
  GroupName :: "string option"
  IpPermissions :: "IpPermission list"

record User =
  UserName :: "string option"

record MFADevice =
  SerialNumber :: "string option"

record AccessKeyMetadata =
  Status :: "string option"
  CreateDate :: "nat option"

text \<open>
  The answers of the provider for one account (the mock resource data): a listing either
  fails with an error or returns its items; a lookup is keyed by the name in the request.
  Where the check ignores the value of a lookup, only its error is kept.
\<close>

record api =
  ListBuckets :: "goerr + Bucket list"
  GetBucketEncryption :: "string \<Rightarrow> goerr option"
  GetBucketAcl :: "string \<Rightarrow> goerr + Grant list"
  GetBucketVersioning :: "string \<Rightarrow> goerr + string option"
  DescribeSecurityGroups :: "goerr + SecurityGroup list"
  ListUsers :: "goerr + User list"
  GetLoginProfile :: "string \<Rightarrow> goerr option"
  ListMFADevices :: "string \<Rightarrow> goerr + MFADevice list"
  ListAccessKeys :: "string \<Rightarrow> goerr + AccessKeyMetadata list"

text \<open>
  What a run does not determine: the readings of the clock and the order in which Go's
  \<open>range\<close> walks a map. A check counts its readings; the \<open>k\<close>-th reading takes
  \<open>now k\<close> or \<open>rangeOrder k\<close>.
\<close>

record nondet =
  now :: "nat \<Rightarrow> nat"
  rangeOrder :: "nat \<Rightarrow> (int \<times> string) list"

text \<open>A nil dereference panics; a panic ends the process.\<close>

datatype 'a outcome = Panic | Done 'a

section \<open>Formatting (fmt.Sprintf)\<close>

definition apos :: char where "apos = CHR 0x27"

fun showNat :: "nat \<Rightarrow> string" where
  "showNat n = (if n < 10 then [''0123456789'' ! n]
                else showNat (n div 10) @ [''0123456789'' ! (n mod 10)])"

declare showNat.simps [simp del]

definition showInt :: "int \<Rightarrow> string" where
  "showInt i = (if i < 0 then CHR ''-'' # showNat (nat (- i)) else showNat (nat i))"

section \<open>Security group checks (scanner/ec2.go)\<close>

definition criticalPorts :: "(int \<times> string) list" where
  "criticalPorts =
     [(22, ''SSH''), (3389, ''RDP''), (5432, ''PostgreSQL''), (3306, ''MySQL''),
      (1433, ''SQL Server''), (27017, ''MongoDB''), (6379, ''Redis'')]"

text \<open>A \<open>range\<close> over the map visits every entry once, in some order.\<close>

definition validOrders :: "nondet \<Rightarrow> bool" where
  "validOrders nd = (\<forall>k. mset (rangeOrder nd k) = mset criticalPorts)"

definition portFinding :: "nat \<Rightarrow> string \<Rightarrow> string \<Rightarrow> int \<Rightarrow> string \<Rightarrow> Finding" where
  "portFinding t sgID sgName port service =
     NewCriticalFinding t sgID ResourceSecurityGroup
       (service @ '' Port Publicly Accessible'')
       (''Security group '' @ [apos] @ sgName @ [apos] @ '' ('' @ sgID @ '') allows '' @ service
        @ '' access (port '' @ showInt port @ '') ''
        @ ''from the entire internet (0.0.0.0/0). This is a critical security risk.'')"

definition allPortsFinding :: "nat \<Rightarrow> string \<Rightarrow> string \<Rightarrow> Finding" where
  "allPortsFinding t sgID sgName =
     NewCriticalFinding t sgID ResourceSecurityGroup
       ''All Ports Publicly Accessible''
       (''Security group '' @ [apos] @ sgName @ [apos] @ '' ('' @ sgID @ '') allows ALL ports from anywhere. ''
        @ ''This is extremely dangerous.'')"

text \<open>The loop of \<open>checkPublicAccess\<close> over the entries of the table, in the order given.\<close>

fun rangeCriticalPorts ::
  "nondet \<Rightarrow> string \<Rightarrow> string \<Rightarrow> int \<Rightarrow> int \<Rightarrow> (int \<times> string) list \<Rightarrow> nat \<times> Scanner \<Rightarrow> nat \<times> Scanner" where
  "rangeCriticalPorts nd sgID sgName fromPort toPort [] ks = ks"
| "rangeCriticalPorts nd sgID sgName fromPort toPort ((port, service) # rest) (k, s) =
     (if port \<ge> fromPort \<and> port \<le> toPort
      then rangeCriticalPorts nd sgID sgName fromPort toPort rest
             (Suc k, addFinding (portFinding (now nd k) sgID sgName port service) s)
      else rangeCriticalPorts nd sgID sgName fromPort toPort rest (k, s))"

definition checkPublicAccess ::
  "nondet \<Rightarrow> string \<Rightarrow> string \<Rightarrow> int \<Rightarrow> int \<Rightarrow> nat \<times> Scanner \<Rightarrow> nat \<times> Scanner" where
  "checkPublicAccess nd sgID sgName fromPort toPort ks =
     (case ks of (k, s) \<Rightarrow>
        (case rangeCriticalPorts nd sgID sgName fromPort toPort (rangeOrder nd k) (Suc k, s) of
           (k1, s1) \<Rightarrow>
             if fromPort = 0 \<and> toPort = 65535
             then (Suc k1, addFinding (allPortsFinding (now nd k1) sgID sgName) s1)
             else (k1, s1)))"

text \<open>The loop over the IP ranges of one permission.\<close>

fun checkIpRanges ::
  "nondet \<Rightarrow> string \<Rightarrow> string \<Rightarrow> int \<Rightarrow> int \<Rightarrow> IpRange list \<Rightarrow> nat \<times> Scanner \<Rightarrow> (nat \<times> Scanner) outcome" where
  "checkIpRanges nd sgID sgName fromPort toPort [] ks = Done ks"
| "checkIpRanges nd sgID sgName fromPort toPort (ipRange # rest) ks =
     (case CidrIp ipRange of
        None \<Rightarrow> Panic
      | Some cidr \<Rightarrow>
          if cidr = ''0.0.0.0/0''
          then checkIpRanges nd sgID sgName fromPort toPort rest
                 (checkPublicAccess nd sgID sgName fromPort toPort ks)
          else checkIpRanges nd sgID sgName fromPort toPort rest ks)"

text \<open>
  The body of the loop over the permissions: an absent \<open>FromPort\<close> or \<open>ToPort\<close> leaves
  the variable at zero.
\<close>

definition checkIpPermission ::
  "nondet \<Rightarrow> string \<Rightarrow> string \<Rightarrow> IpPermission \<Rightarrow> nat \<times> Scanner \<Rightarrow> (nat \<times> Scanner) outcome" where
  "checkIpPermission nd sgID sgName permission ks =
     (let fromPort = (case FromPort permission of Some p \<Rightarrow> p | None \<Rightarrow> 0);
          toPort = (case ToPort permission of Some p \<Rightarrow> p | None \<Rightarrow> 0)
      in checkIpRanges nd sgID sgName fromPort toPort (IpRanges permission) ks)"

fun checkIpPermissions ::
  "nondet \<Rightarrow> string \<Rightarrow> string \<Rightarrow> IpPermission list \<Rightarrow> nat \<times> Scanner \<Rightarrow> (nat \<times> Scanner) outcome" where
  "checkIpPermissions nd sgID sgName [] ks = Done ks"
| "checkIpPermissions nd sgID sgName (permission # rest) ks =
     (case checkIpPermission nd sgID sgName permission ks of
        Panic \<Rightarrow> Panic
      | Done ks' \<Rightarrow> checkIpPermissions nd sgID sgName rest ks')"

definition checkSecurityGroupRules ::
  "nondet \<Rightarrow> SecurityGroup \<Rightarrow> nat \<times> Scanner \<Rightarrow> (nat \<times> Scanner) outcome" where
  "checkSecurityGroupRules nd sg ks =
     (case GroupId sg of
        None \<Rightarrow> Panic
      | Some sgID \<Rightarrow>
          (case GroupName sg of
             None \<Rightarrow> Panic
           | Some sgName \<Rightarrow> checkIpPermissions nd sgID sgName (IpPermissions sg) ks))"

fun checkSecurityGroups ::
  "nondet \<Rightarrow> SecurityGroup list \<Rightarrow> nat \<times> Scanner \<Rightarrow> (nat \<times> Scanner) outcome" where
  "checkSecurityGroups nd [] ks = Done ks"
| "checkSecurityGroups nd (sg # rest) ks =
     (case checkSecurityGroupRules nd sg ks of
        Panic \<Rightarrow> Panic
      | Done ks' \<Rightarrow> checkSecurityGroups nd rest ks')"

text \<open>
  A check returns its error (\<open>None\<close> for nil) together with the state it leaves behind.
\<close>

definition scanSecurityGroups ::
  "api \<Rightarrow> nondet \<Rightarrow> nat \<times> Scanner \<Rightarrow> (goerr option \<times> nat \<times> Scanner) outcome" where
  "scanSecurityGroups a nd ks =
     (case DescribeSecurityGroups a of
        Inl err \<Rightarrow> Done (Some (Errorf ''failed to describe security groups: '' err), ks)
      | Inr groups \<Rightarrow>
          (case checkSecurityGroups nd groups ks of
             Panic \<Rightarrow> Panic
           | Done ks' \<Rightarrow> Done (None, ks')))"

section \<open>S3 checks (scanner/s3.go)\<close>

definition notEncryptedFinding :: "nat \<Rightarrow> string \<Rightarrow> Finding" where
  "notEncryptedFinding t bucketName =
     NewHighFinding t bucketName ResourceS3
       ''S3 Bucket Not Encrypted''
       (''Bucket '' @ [apos] @ bucketName @ [apos] @ '' does not have server-side encryption enabled. ''
        @ ''Data at rest is not protected.'')"

text \<open>An error of the encryption lookup is taken to mean that the bucket is not encrypted.\<close>

definition checkBucketEncryption ::
  "api \<Rightarrow> nondet \<Rightarrow> Bucket \<Rightarrow> nat \<times> Scanner \<Rightarrow> (nat \<times> Scanner) outcome" where
  "checkBucketEncryption a nd bucket ks =
     (case ks of (k, s) \<Rightarrow>
        (case Name bucket of
           None \<Rightarrow> Panic
         | Some bucketName \<Rightarrow>
             (case GetBucketEncryption a bucketName of
                Some err \<Rightarrow> Done (Suc k, addFinding (notEncryptedFinding (now nd k) bucketName) s)
              | None \<Rightarrow> Done (k, s))))"

definition AllUsers :: string where
  "AllUsers = ''http://acs.amazonaws.com/groups/global/AllUsers''"

definition AuthenticatedUsers :: string where
  "AuthenticatedUsers = ''http://acs.amazonaws.com/groups/global/AuthenticatedUsers''"

definition publicBucketFinding :: "nat \<Rightarrow> string \<Rightarrow> Finding" where
  "publicBucketFinding t bucketName =
     NewCriticalFinding t bucketName ResourceS3
       ''S3 Bucket Publicly Accessible''
       (''Bucket '' @ [apos] @ bucketName @ [apos] @ '' allows public access via ACL. ''
        @ ''This could expose sensitive data to the internet.'')"

text \<open>
  The loop of \<open>checkBucketPublicAccess\<close> over the grants: the first grant to one of the two
  groups adds the finding and returns.
\<close>

fun rangeGrants :: "nondet \<Rightarrow> string \<Rightarrow> Grant list \<Rightarrow> nat \<times> Scanner \<Rightarrow> (nat \<times> Scanner) outcome" where
  "rangeGrants nd bucketName [] ks = Done ks"
| "rangeGrants nd bucketName (grant # rest) (k, s) =
     (case Grantee grant of
        None \<Rightarrow> Panic
      | Some grantee \<Rightarrow>
          (case URI grantee of
             None \<Rightarrow> rangeGrants nd bucketName rest (k, s)
           | Some uri \<Rightarrow>
               if uri = AllUsers \<or> uri = AuthenticatedUsers
               then Done (Suc k, addFinding (publicBucketFinding (now nd k) bucketName) s)
               else rangeGrants nd bucketName rest (k, s)))"

definition checkBucketPublicAccess ::
  "api \<Rightarrow> nondet \<Rightarrow> Bucket \<Rightarrow> nat \<times> Scanner \<Rightarrow> (nat \<times> Scanner) outcome" where
  "checkBucketPublicAccess a nd bucket ks =
     (case Name bucket of
        None \<Rightarrow> Panic
      | Some bucketName \<Rightarrow>
          (case GetBucketAcl a bucketName of
             Inl err \<Rightarrow> Done ks
           | Inr grants \<Rightarrow> rangeGrants nd bucketName grants ks))"

definition versioningFinding :: "nat \<Rightarrow> string \<Rightarrow> Finding" where
  "versioningFinding t bucketName =
     NewMediumFinding t bucketName ResourceS3
       ''S3 Bucket Versioning Disabled''
       (''Bucket '' @ [apos] @ bucketName @ [apos] @ '' does not have versioning enabled. ''
        @ ''Cannot recover from accidental deletion or modification.'')"

definition checkBucketVersioning ::
  "api \<Rightarrow> nondet \<Rightarrow> Bucket \<Rightarrow> nat \<times> Scanner \<Rightarrow> (nat \<times> Scanner) outcome" where
  "checkBucketVersioning a nd bucket ks =
     (case ks of (k, s) \<Rightarrow>
        (case Name bucket of
           None \<Rightarrow> Panic
         | Some bucketName \<Rightarrow>
             (case GetBucketVersioning a bucketName of
                Inl err \<Rightarrow> Done (k, s)
              | Inr status \<Rightarrow>
                  if status = None \<or> status \<noteq> Some ''Enabled''
                  then Done (Suc k, addFinding (versioningFinding (now nd k) bucketName) s)
                  else Done (k, s))))"

fun checkBuckets :: "api \<Rightarrow> nondet \<Rightarrow> Bucket list \<Rightarrow> nat \<times> Scanner \<Rightarrow> (nat \<times> Scanner) outcome" where
  "checkBuckets a nd [] ks = Done ks"
| "checkBuckets a nd (bucket # rest) ks =
     (case checkBucketEncryption a nd bucket ks of
        Panic \<Rightarrow> Panic
      | Done ks1 \<Rightarrow>
          (case checkBucketPublicAccess a nd bucket ks1 of
             Panic \<Rightarrow> Panic
           | Done ks2 \<Rightarrow>
               (case checkBucketVersioning a nd bucket ks2 of
                  Panic \<Rightarrow> Panic
                | Done ks3 \<Rightarrow> checkBuckets a nd rest ks3)))"

definition scanS3 ::
  "api \<Rightarrow> nondet \<Rightarrow> nat \<times> Scanner \<Rightarrow> (goerr option \<times> nat \<times> Scanner) outcome" where
  "scanS3 a nd ks =
     (case ListBuckets a of
        Inl err \<Rightarrow> Done (Some (Errorf ''failed to list S3 buckets: '' err), ks)
      | Inr buckets \<Rightarrow>
          (case checkBuckets a nd buckets ks of
             Panic \<Rightarrow> Panic
           | Done ks' \<Rightarrow> Done (None, ks')))"

section \<open>IAM checks (scanner/iam.go)\<close>

definition noMFAFinding :: "nat \<Rightarrow> string \<Rightarrow> Finding" where
  "noMFAFinding t userName =
     NewHighFinding t userName ResourceIAM
       ''IAM User Without MFA''
       (''IAM user '' @ [apos] @ userName @ [apos] @ '' has console access but no MFA device configured. ''
        @ ''MFA provides critical additional security layer.'')"

text \<open>
  An error of \<open>GetLoginProfile\<close> means no console access and ends the check; so does an
  error of \<open>ListMFADevices\<close>.
\<close>

definition checkUserMFA ::
  "api \<Rightarrow> nondet \<Rightarrow> User \<Rightarrow> nat \<times> Scanner \<Rightarrow> (nat \<times> Scanner) outcome" where
  "checkUserMFA a nd user ks =
     (case ks of (k, s) \<Rightarrow>
        (case UserName user of
           None \<Rightarrow> Panic
         | Some userName \<Rightarrow>
             (case GetLoginProfile a userName of
                Some err \<Rightarrow> Done (k, s)
              | None \<Rightarrow>
                  (case ListMFADevices a userName of
                     Inl err \<Rightarrow> Done (k, s)
                   | Inr devices \<Rightarrow>
                       if length devices = 0
                       then Done (Suc k, addFinding (noMFAFinding (now nd k) userName) s)
                       else Done (k, s)))))"

text \<open>
  The loop over the access keys reads \<open>*key.Status\<close> and does nothing else with an
  active key.
\<close>

fun rangeAccessKeys :: "AccessKeyMetadata list \<Rightarrow> nat \<times> Scanner \<Rightarrow> (nat \<times> Scanner) outcome" where
  "rangeAccessKeys [] ks = Done ks"
| "rangeAccessKeys (key # rest) ks =
     (case Status key of
        None \<Rightarrow> Panic
      | Some status \<Rightarrow>
          if status = ''Active'' then rangeAccessKeys rest ks else rangeAccessKeys rest ks)"

definition checkUserAccessKeys ::
  "api \<Rightarrow> User \<Rightarrow> nat \<times> Scanner \<Rightarrow> (nat \<times> Scanner) outcome" where
  "checkUserAccessKeys a user ks =
     (case UserName user of
        None \<Rightarrow> Panic
      | Some userName \<Rightarrow>
          (case ListAccessKeys a userName of
             Inl err \<Rightarrow> Done ks
           | Inr keys \<Rightarrow> rangeAccessKeys keys ks))"

fun checkUsers :: "api \<Rightarrow> nondet \<Rightarrow> User list \<Rightarrow> nat \<times> Scanner \<Rightarrow> (nat \<times> Scanner) outcome" where
  "checkUsers a nd [] ks = Done ks"
| "checkUsers a nd (user # rest) ks =
     (case checkUserMFA a nd user ks of
        Panic \<Rightarrow> Panic
      | Done ks1 \<Rightarrow>
          (case checkUserAccessKeys a user ks1 of
             Panic \<Rightarrow> Panic
           | Done ks2 \<Rightarrow> checkUsers a nd rest ks2))"

definition scanIAM ::
  "api \<Rightarrow> nondet \<Rightarrow> nat \<times> Scanner \<Rightarrow> (goerr option \<times> nat \<times> Scanner) outcome" where
  "scanIAM a nd ks =
     (case ListUsers a of
        Inl err \<Rightarrow> Done (Some (Errorf ''failed to list IAM users: '' err), ks)
      | Inr users \<Rightarrow>
          (case checkUsers a nd users ks of
             Panic \<Rightarrow> Panic
           | Done ks' \<Rightarrow> Done (None, ks')))"

section \<open>The sequential scan (scanner/scanner.go)\<close>

text \<open>
  \<open>Scan\<close> runs the three checks in turn on the scanner; the first error is returned
  wrapped, and the scanner keeps what was appended so far.
\<close>

definition Scan :: "api \<Rightarrow> nondet \<Rightarrow> Scanner \<Rightarrow> (goerr option \<times> Scanner) outcome" where
  "Scan a nd s =
     (case scanS3 a nd (0, s) of
        Panic \<Rightarrow> Panic
      | Done (Some err, (k1, s1)) \<Rightarrow> Done (Some (Errorf ''S3 scan failed: '' err), s1)
      | Done (None, ks1) \<Rightarrow>
          (case scanSecurityGroups a nd ks1 of
             Panic \<Rightarrow> Panic
           | Done (Some err, (k2, s2)) \<Rightarrow> Done (Some (Errorf ''Security Group scan failed: '' err), s2)
           | Done (None, ks2) \<Rightarrow>
               (case scanIAM a nd ks2 of
                  Panic \<Rightarrow> Panic
                | Done (Some err, (k3, s3)) \<Rightarrow> Done (Some (Errorf ''IAM scan failed: '' err), s3)
                | Done (None, (k3, s3)) \<Rightarrow> Done (None, s3))))"

section \<open>Comparing findings, and sample data\<close>

text \<open>A finding with its timestamp erased, to compare findings of different runs.\<close>

definition untimed :: "Finding \<Rightarrow> Finding" where
  "untimed f = f\<lparr>Timestamp := 0\<rparr>"

definition sample_nondet :: nondet where
  "sample_nondet = \<lparr>now = (\<lambda>k. 1000 + k), rangeOrder = (\<lambda>k. rev criticalPorts)\<rparr>"

definition sample_scanner :: Scanner where
  "sample_scanner = \<lparr>region = ''us-east-1'', findings = []\<rparr>"

definition open_permission :: IpPermission where
  "open_permission =
     \<lparr>FromPort = Some 0, ToPort = Some 65535, IpRanges = [\<lparr>CidrIp = Some ''0.0.0.0/0''\<rparr>]\<rparr>"

definition all_protocols_permission :: IpPermission where
  "all_protocols_permission =
     \<lparr>FromPort = None, ToPort = None, IpRanges = [\<lparr>CidrIp = Some ''0.0.0.0/0''\<rparr>]\<rparr>"

section \<open>Sample provider data\<close>

text \<open>Whether a grant names one of the two public groups.\<close>


definition publicGrant :: "Grant \<Rightarrow> bool" where
  "publicGrant grant =
     (case Grantee grant of
        None \<Rightarrow> False
      | Some grantee \<Rightarrow> URI grantee = Some AllUsers \<or> URI grantee = Some AuthenticatedUsers)"

definition sample_bucket :: Bucket where
  "sample_bucket = \<lparr>Name = Some ''logs''\<rparr>"

definition sample_api :: api where
  "sample_api =
     \<lparr>ListBuckets = Inr [sample_bucket],
      GetBucketEncryption = (\<lambda>b. None),
      GetBucketAcl = (\<lambda>b. Inr [\<lparr>Grantee = Some \<lparr>URI = None\<rparr>\<rparr>,
                               \<lparr>Grantee = Some \<lparr>URI = Some AuthenticatedUsers\<rparr>\<rparr>,
                               \<lparr>Grantee = Some \<lparr>URI = Some AllUsers\<rparr>\<rparr>,
                               \<lparr>Grantee = None\<rparr>]),
      GetBucketVersioning = (\<lambda>b. Inr (Some ''Enabled'')),
      DescribeSecurityGroups = Inr [],
      ListUsers = Inr [],
      GetLoginProfile = (\<lambda>u. if u = ''alice'' then None else Some (ApiError ''NoSuchEntity'')),
      ListMFADevices = (\<lambda>u. Inr []),
      ListAccessKeys = (\<lambda>u. Inr [])\<rparr>"

section \<open>Checks as appenders\<close>

text \<open>
  A check reads the scanner only to append to it. \<open>rebase s r\<close> replays on the store of
  \<open>s\<close> what a run \<open>r\<close> from the empty store appended; a step is an \<open>appender\<close> when its
  run from any store is the rebased run from the empty store. \<open>andThen\<close> is sequencing
  with a panic ending the run.
\<close>


definition rebase :: "Scanner \<Rightarrow> (nat \<times> Scanner) outcome \<Rightarrow> (nat \<times> Scanner) outcome" where
  "rebase s r =
     (case r of Panic \<Rightarrow> Panic
      | Done (k', s') \<Rightarrow> Done (k', s\<lparr>findings := findings s @ findings s'\<rparr>))"

definition appender :: "(nat \<times> Scanner \<Rightarrow> (nat \<times> Scanner) outcome) \<Rightarrow> bool" where
  "appender f = (\<forall>k s. f (k, s) = rebase s (f (k, s\<lparr>findings := []\<rparr>)))"

definition andThen ::
  "(nat \<times> Scanner \<Rightarrow> (nat \<times> Scanner) outcome) \<Rightarrow> (nat \<times> Scanner \<Rightarrow> (nat \<times> Scanner) outcome)
   \<Rightarrow> nat \<times> Scanner \<Rightarrow> (nat \<times> Scanner) outcome" where
  "andThen f g ks = (case f ks of Panic \<Rightarrow> Panic | Done ks' \<Rightarrow> g ks')"

text \<open>The sample account with one of the three listings refused.\<close>


definition sg_denied_api :: api where
  "sg_denied_api =
     sample_api\<lparr>DescribeSecurityGroups := Inl (ApiError ''UnauthorizedOperation''),
                ListUsers := Inr [\<lparr>UserName = None\<rparr>]\<rparr>"

definition s3_denied_api :: api where
  "s3_denied_api = sample_api\<lparr>ListBuckets := Inl (ApiError ''AccessDenied'')\<rparr>"

definition iam_denied_api :: api where
  "iam_denied_api = sample_api\<lparr>ListUsers := Inl (ApiError ''AccessDenied'')\<rparr>"

section \<open>Properties of the store\<close>

lemma addFinding_findings: "findings (addFinding f s) = findings s @ [f\<lparr>Region := region s\<rparr>]"
  by (simp add: addFinding_def)

lemma addFinding_region: "region (addFinding f s) = region s"
  by (simp add: addFinding_def)

text \<open>
  Claim C1. Appending a finding to a scanner configured with region \<open>R\<close> stores it with
  region \<open>R\<close>, whatever region the finding carried before: the readers see the old
  findings followed by the finding with its region overwritten, the other fields of the
  finding are untouched, and the configured region does not change.
\<close>

theorem addFinding_region_override:
  "GetFindings (addFinding f s) = GetFindings s @ [f\<lparr>Region := region s\<rparr>]
   \<and> Region (last (GetFindings (addFinding f s))) = region s
   \<and> GetFindingsBySeverity sev (addFinding f s) =
       GetFindingsBySeverity sev s @ (if Severity f = sev then [f\<lparr>Region := region s\<rparr>] else [])
   \<and> region (addFinding f s) = region s"
  by (simp add: GetFindings_def GetFindingsBySeverity_def addFinding_def)

section \<open>The security group check\<close>



lemma untimed_portFinding [simp]:
  "untimed ((portFinding t g n port service)\<lparr>Region := r\<rparr>) = (portFinding 0 g n port service)\<lparr>Region := r\<rparr>"
  by (simp add: untimed_def portFinding_def NewCriticalFinding_def NewFinding_def)

lemma untimed_allPortsFinding [simp]:
  "untimed ((allPortsFinding t g n)\<lparr>Region := r\<rparr>) = (allPortsFinding 0 g n)\<lparr>Region := r\<rparr>"
  by (simp add: untimed_def allPortsFinding_def NewCriticalFinding_def NewFinding_def)

lemma rangeCriticalPorts_emits:
  "\<exists>new. rangeCriticalPorts nd g n lo hi ord (k, s) =
           (k + length new, s\<lparr>findings := findings s @ new\<rparr>)
         \<and> map untimed new =
             map (\<lambda>(port, service). (portFinding 0 g n port service)\<lparr>Region := region s\<rparr>)
               (filter (\<lambda>(port, service). port \<ge> lo \<and> port \<le> hi) ord)"
proof (induction ord arbitrary: k s)
  case Nil
  show ?case by simp
next
  case (Cons e ord)
  obtain port service where e: "e = (port, service)" by (cases e)
  show ?case
  proof (cases "port \<ge> lo \<and> port \<le> hi")
    case False
    with Cons.IH [of k s] e show ?thesis by auto
  next
    case True
    let ?f = "(portFinding (now nd k) g n port service)\<lparr>Region := region s\<rparr>"
    let ?s1 = "addFinding (portFinding (now nd k) g n port service) s"
    from Cons.IH [of "Suc k" ?s1] obtain new where
      new: "rangeCriticalPorts nd g n lo hi ord (Suc k, ?s1) =
              (Suc k + length new, ?s1\<lparr>findings := findings ?s1 @ new\<rparr>)"
        "map untimed new =
           map (\<lambda>(port, service). (portFinding 0 g n port service)\<lparr>Region := region ?s1\<rparr>)
             (filter (\<lambda>(port, service). port \<ge> lo \<and> port \<le> hi) ord)"
      by blast
    have "rangeCriticalPorts nd g n lo hi (e # ord) (k, s) =
            (k + length (?f # new), s\<lparr>findings := findings s @ (?f # new)\<rparr>)"
      using True e new(1) by (simp add: addFinding_def)
    moreover have "map untimed (?f # new) =
             map (\<lambda>(port, service). (portFinding 0 g n port service)\<lparr>Region := region s\<rparr>)
               (filter (\<lambda>(port, service). port \<ge> lo \<and> port \<le> hi) (e # ord))"
      using True e new(2) by (simp add: addFinding_def)
    ultimately show ?thesis by blast
  qed
qed

lemma checkPublicAccess_emits:
  "\<exists>new. checkPublicAccess nd g n lo hi (k, s) =
           (Suc k + length new, s\<lparr>findings := findings s @ new\<rparr>)
         \<and> map untimed new =
             map (\<lambda>(port, service). (portFinding 0 g n port service)\<lparr>Region := region s\<rparr>)
               (filter (\<lambda>(port, service). port \<ge> lo \<and> port \<le> hi) (rangeOrder nd k))
             @ (if lo = 0 \<and> hi = 65535 then [(allPortsFinding 0 g n)\<lparr>Region := region s\<rparr>] else [])"
proof -
  obtain new where
    new: "rangeCriticalPorts nd g n lo hi (rangeOrder nd k) (Suc k, s) =
            (Suc k + length new, s\<lparr>findings := findings s @ new\<rparr>)"
      "map untimed new =
         map (\<lambda>(port, service). (portFinding 0 g n port service)\<lparr>Region := region s\<rparr>)
           (filter (\<lambda>(port, service). port \<ge> lo \<and> port \<le> hi) (rangeOrder nd k))"
    using rangeCriticalPorts_emits [of nd g n lo hi "rangeOrder nd k" "Suc k" s] by blast
  show ?thesis
  proof (cases "lo = 0 \<and> hi = 65535")
    case False
    then show ?thesis using new by (auto simp: checkPublicAccess_def)
  next
    case True
    let ?f = "(allPortsFinding (now nd (Suc k + length new)) g n)\<lparr>Region := region s\<rparr>"
    have "checkPublicAccess nd g n lo hi (k, s) =
            (Suc k + length (new @ [?f]), s\<lparr>findings := findings s @ (new @ [?f])\<rparr>)"
      using True new(1) by (simp add: checkPublicAccess_def addFinding_def)
    moreover have "map untimed (new @ [?f]) =
        map (\<lambda>(port, service). (portFinding 0 g n port service)\<lparr>Region := region s\<rparr>)
               (filter (\<lambda>(port, service). port \<ge> lo \<and> port \<le> hi) (rangeOrder nd k))
             @ (if lo = 0 \<and> hi = 65535 then [(allPortsFinding 0 g n)\<lparr>Region := region s\<rparr>] else [])"
      using True new(2) by simp
    ultimately show ?thesis by blast
  qed
qed

lemma checkIpRanges_funpow:
  "None \<notin> set (map CidrIp rs) \<Longrightarrow>
   checkIpRanges nd g n lo hi rs ks =
     Done ((checkPublicAccess nd g n lo hi ^^ count_list (map CidrIp rs) (Some ''0.0.0.0/0'')) ks)"
proof (induction rs arbitrary: ks)
  case Nil
  show ?case by simp
next
  case (Cons r rs)
  then obtain cidr where c: "CidrIp r = Some cidr" by (cases "CidrIp r") auto
  from Cons have "None \<notin> set (map CidrIp rs)" by simp
  note IH = Cons.IH [OF this]
  show ?case using c IH by (simp add: funpow_swap1)
qed


lemma valid_set: "validOrders nd \<Longrightarrow> set (rangeOrder nd k) = set criticalPorts"
  unfolding validOrders_def by (metis set_mset_mset)

lemma checkPublicAccess_zero:
  assumes "validOrders nd"
  shows "checkPublicAccess nd g n 0 0 (k, s) = (Suc k, s)"
proof -
  have "filter (\<lambda>(port, service). port \<ge> 0 \<and> port \<le> 0) (rangeOrder nd k) = []"
    unfolding filter_empty_conv valid_set [OF assms] by (simp add: criticalPorts_def)
  with checkPublicAccess_emits [of nd g n 0 0 k s] show ?thesis by auto
qed

lemma checkPublicAccess_zero_funpow:
  assumes "validOrders nd"
  shows "(checkPublicAccess nd g n 0 0 ^^ c) (k, s) = (k + c, s)"
  by (induction c arbitrary: k) (simp_all add: checkPublicAccess_zero [OF assms] funpow_swap1)

text \<open>
  Claim C10. An ingress rule open to 0.0.0.0/0 whose \<open>FromPort\<close> and \<open>ToPort\<close> are both
  absent is checked with the range [0, 0]: no critical port lies in it and it is not the
  range [0, 65535], so the check appends nothing, however often the rule lists
  0.0.0.0/0 and whatever the iteration order of the port table.
\<close>

theorem absent_ports_no_findings:
  assumes "validOrders nd"
    and "FromPort permission = None" and "ToPort permission = None"
    and "None \<notin> set (map CidrIp (IpRanges permission))"
  shows "checkIpPermission nd sgID sgName permission (k, s) =
           Done (k + count_list (map CidrIp (IpRanges permission)) (Some ''0.0.0.0/0''), s)"
  using assms
  by (simp add: checkIpPermission_def checkIpRanges_funpow checkPublicAccess_zero_funpow)


theorem absent_ports_no_findings_witness:
  "validOrders sample_nondet
   \<and> FromPort all_protocols_permission = None \<and> ToPort all_protocols_permission = None
   \<and> None \<notin> set (map CidrIp (IpRanges all_protocols_permission))
   \<and> checkIpPermission sample_nondet ''sg-1'' ''web'' all_protocols_permission (0, sample_scanner) =
       Done (1, sample_scanner)"
proof -
  have h1: "validOrders sample_nondet"
    by (simp add: validOrders_def sample_nondet_def)
  have h2: "FromPort all_protocols_permission = None" by (simp add: all_protocols_permission_def)
  have h3: "ToPort all_protocols_permission = None" by (simp add: all_protocols_permission_def)
  have h4: "None \<notin> set (map CidrIp (IpRanges all_protocols_permission))"
    by (simp add: all_protocols_permission_def)
  have "count_list (map CidrIp (IpRanges all_protocols_permission)) (Some ''0.0.0.0/0'') = 1"
    by (simp add: all_protocols_permission_def)
  then show ?thesis
    using h1 h2 h3 h4
      absent_ports_no_findings [OF h1 h2 h3 h4, of "''sg-1''" "''web''" 0 sample_scanner]
    by simp
qed

lemma Severity_untimed [simp]: "Severity (untimed f) = Severity f"
  and Title_untimed [simp]: "Title (untimed f) = Title f"
  and Region_untimed [simp]: "Region (untimed f) = Region f"
  by (simp_all add: untimed_def)

lemma checkPublicAccess_all_ports:
  assumes "validOrders nd"
  shows "\<exists>new. checkPublicAccess nd g n 0 65535 (k, s) =
           (Suc k + length new, s\<lparr>findings := findings s @ new\<rparr>)
         \<and> map untimed new =
             map (\<lambda>(port, service). (portFinding 0 g n port service)\<lparr>Region := region s\<rparr>)
               (rangeOrder nd k)
             @ [(allPortsFinding 0 g n)\<lparr>Region := region s\<rparr>]"
proof -
  have "\<forall>e \<in> set (rangeOrder nd k). (\<lambda>(port, service). port \<ge> 0 \<and> port \<le> 65535) e"
    unfolding valid_set [OF assms] by (simp add: criticalPorts_def)
  then have "filter (\<lambda>(port, service). port \<ge> 0 \<and> port \<le> 65535) (rangeOrder nd k) = rangeOrder nd k"
    by (simp add: filter_id_conv)
  with checkPublicAccess_emits [of nd g n 0 65535 k s] show ?thesis by auto
qed

text \<open>
  Claim C4. An ingress rule with port range [0, 65535] that lists 0.0.0.0/0 once makes
  the check append exactly eight findings, all CRITICAL: seven per-service findings, one
  for each entry of the port table and naming its service (in the order in which the
  table is iterated), followed by the "all ports" finding.
\<close>

theorem open_rule_eight_findings:
  assumes "validOrders nd"
    and "FromPort permission = Some 0" and "ToPort permission = Some 65535"
    and "None \<notin> set (map CidrIp (IpRanges permission))"
    and "count_list (map CidrIp (IpRanges permission)) (Some ''0.0.0.0/0'') = 1"
  shows "\<exists>new k'. checkIpPermission nd sgID sgName permission (k, s) =
             Done (k', s\<lparr>findings := findings s @ new\<rparr>)
         \<and> length new = 8
         \<and> map Severity new = replicate 8 SeverityCritical
         \<and> mset (map untimed (butlast new)) =
             mset (map (\<lambda>(port, service). (portFinding 0 sgID sgName port service)\<lparr>Region := region s\<rparr>)
                    criticalPorts)
         \<and> mset (map Title (butlast new)) =
             {#''SSH Port Publicly Accessible'', ''RDP Port Publicly Accessible'',
               ''PostgreSQL Port Publicly Accessible'', ''MySQL Port Publicly Accessible'',
               ''SQL Server Port Publicly Accessible'', ''MongoDB Port Publicly Accessible'',
               ''Redis Port Publicly Accessible''#}
         \<and> untimed (last new) = (allPortsFinding 0 sgID sgName)\<lparr>Region := region s\<rparr>
         \<and> Title (last new) = ''All Ports Publicly Accessible''"
proof -
  let ?h = "\<lambda>(port, service). (portFinding 0 sgID sgName port service)\<lparr>Region := region s\<rparr>"
  let ?ap = "(allPortsFinding 0 sgID sgName)\<lparr>Region := region s\<rparr>"
  let ?ord = "rangeOrder nd k"
  have run: "checkIpPermission nd sgID sgName permission (k, s) =
               Done (checkPublicAccess nd sgID sgName 0 65535 (k, s))"
    using assms(2-5) by (simp add: checkIpPermission_def checkIpRanges_funpow)
  obtain new where
    new: "checkPublicAccess nd sgID sgName 0 65535 (k, s) =
            (Suc k + length new, s\<lparr>findings := findings s @ new\<rparr>)"
      "map untimed new = map ?h ?ord @ [?ap]"
    using checkPublicAccess_all_ports [OF assms(1), of sgID sgName k s] by blast
  have ord: "mset ?ord = mset criticalPorts"
    using assms(1) by (simp add: validOrders_def)
  have "length ?ord = size (mset criticalPorts)"
    using ord by (metis size_mset)
  then have len_ord: "length ?ord = 7" by (simp add: criticalPorts_def)
  have "length (map untimed new) = 8"
    unfolding new(2) using len_ord by simp
  then have len: "length new = 8" by simp
  then have ne: "new \<noteq> []" by auto
  have sev_h: "\<And>e. Severity (?h e) = SeverityCritical"
    by (simp add: portFinding_def NewCriticalFinding_def NewFinding_def split: prod.splits)
  have "map Severity new = map Severity (map untimed new)" by simp
  also have "\<dots> = map (\<lambda>e. SeverityCritical) ?ord @ [SeverityCritical]"
    unfolding new(2) using sev_h
    by (simp add: allPortsFinding_def NewCriticalFinding_def NewFinding_def)
  also have "\<dots> = replicate 8 SeverityCritical"
    using len_ord by (simp add: map_replicate_const replicate_append_same eval_nat_numeral)
  finally have sev: "map Severity new = replicate 8 SeverityCritical" .
  have "map untimed (butlast new) = butlast (map untimed new)"
    by (simp add: map_butlast)
  then have bl: "map untimed (butlast new) = map ?h ?ord"
    unfolding new(2) by simp
  have "mset (map ?h ?ord) = image_mset ?h (mset ?ord)" by simp
  then have ms: "mset (map untimed (butlast new)) = mset (map ?h criticalPorts)"
    unfolding bl ord by simp
  have "map Title (butlast new) = map Title (map untimed (butlast new))" by simp
  then have "mset (map Title (butlast new)) = image_mset Title (mset (map untimed (butlast new)))"
    by (metis mset_map)
  then have titles: "mset (map Title (butlast new)) =
             {#''SSH Port Publicly Accessible'', ''RDP Port Publicly Accessible'',
               ''PostgreSQL Port Publicly Accessible'', ''MySQL Port Publicly Accessible'',
               ''SQL Server Port Publicly Accessible'', ''MongoDB Port Publicly Accessible'',
               ''Redis Port Publicly Accessible''#}"
    unfolding ms
    by (simp add: criticalPorts_def portFinding_def NewCriticalFinding_def NewFinding_def)
  have "untimed (last new) = last (map untimed new)"
    using ne by (simp add: last_map)
  then have lst: "untimed (last new) = ?ap"
    unfolding new(2) by simp
  have "Title (last new) = Title (untimed (last new))" by simp
  then have lt: "Title (last new) = ''All Ports Publicly Accessible''"
    unfolding lst by (simp add: allPortsFinding_def NewCriticalFinding_def NewFinding_def)
  have "checkIpPermission nd sgID sgName permission (k, s) =
          Done (Suc k + length new, s\<lparr>findings := findings s @ new\<rparr>)"
    using run new(1) by simp
  then show ?thesis
    using len sev ms titles lst lt by (intro exI conjI)
qed

theorem open_rule_eight_findings_witness:
  "validOrders sample_nondet
   \<and> FromPort open_permission = Some 0 \<and> ToPort open_permission = Some 65535
   \<and> None \<notin> set (map CidrIp (IpRanges open_permission))
   \<and> count_list (map CidrIp (IpRanges open_permission)) (Some ''0.0.0.0/0'') = 1
   \<and> (\<exists>new k'. checkIpPermission sample_nondet ''sg-1'' ''web'' open_permission (0, sample_scanner) =
             Done (k', sample_scanner\<lparr>findings := findings sample_scanner @ new\<rparr>)
         \<and> length new = 8
         \<and> map Severity new = replicate 8 SeverityCritical
         \<and> mset (map untimed (butlast new)) =
             mset (map (\<lambda>(port, service).
                      (portFinding 0 ''sg-1'' ''web'' port service)\<lparr>Region := region sample_scanner\<rparr>)
                    criticalPorts)
         \<and> mset (map Title (butlast new)) =
             {#''SSH Port Publicly Accessible'', ''RDP Port Publicly Accessible'',
               ''PostgreSQL Port Publicly Accessible'', ''MySQL Port Publicly Accessible'',
               ''SQL Server Port Publicly Accessible'', ''MongoDB Port Publicly Accessible'',
               ''Redis Port Publicly Accessible''#}
         \<and> untimed (last new) = (allPortsFinding 0 ''sg-1'' ''web'')\<lparr>Region := region sample_scanner\<rparr>
         \<and> Title (last new) = ''All Ports Publicly Accessible'')"
proof -
  have h1: "validOrders sample_nondet"
    by (simp add: validOrders_def sample_nondet_def)
  have h2: "FromPort open_permission = Some 0" by (simp add: open_permission_def)
  have h3: "ToPort open_permission = Some 65535" by (simp add: open_permission_def)
  have h4: "None \<notin> set (map CidrIp (IpRanges open_permission))"
    by (simp add: open_permission_def)
  have h5: "count_list (map CidrIp (IpRanges open_permission)) (Some ''0.0.0.0/0'') = 1"
    by (simp add: open_permission_def)
  show ?thesis
    using h1 h2 h3 h4 h5
      open_rule_eight_findings [OF h1 h2 h3 h4 h5, of "''sg-1''" "''web''" 0 sample_scanner]
    by (intro conjI)
qed

section \<open>The S3 and IAM checks\<close>

lemma rangeGrants_first_public:
  assumes "\<forall>g \<in> set pre. Grantee g \<noteq> None \<and> \<not> publicGrant g" and "publicGrant grant"
  shows "rangeGrants nd bucketName (pre @ grant # rest) (k, s) =
           Done (Suc k, addFinding (publicBucketFinding (now nd k) bucketName) s)"
  using assms
proof (induction pre)
  case Nil
  then show ?case by (auto simp: publicGrant_def split: option.splits)
next
  case (Cons g pre)
  then show ?case by (auto simp: publicGrant_def split: option.splits)
qed

text \<open>
  Claim C5. When the ACL of a bucket holds two or more grants to the "all users" or
  "all authenticated users" group, the check appends exactly one finding, CRITICAL and
  titled "S3 Bucket Publicly Accessible", at the first such grant, and returns: the
  grants after it (\<open>rest\<close>, which is arbitrary) are not looked at.
\<close>

theorem one_public_access_finding:
  assumes "Name bucket = Some bucketName"
    and "GetBucketAcl a bucketName = Inr (pre @ grant # rest)"
    and "\<forall>g \<in> set pre. Grantee g \<noteq> None \<and> \<not> publicGrant g"
    and "publicGrant grant"
    and "2 \<le> length (filter publicGrant (pre @ grant # rest))"
  shows "checkBucketPublicAccess a nd bucket (k, s) =
           Done (Suc k, s\<lparr>findings := findings s @ [(publicBucketFinding (now nd k) bucketName)\<lparr>Region := region s\<rparr>]\<rparr>)
         \<and> Severity (publicBucketFinding (now nd k) bucketName) = SeverityCritical
         \<and> Title (publicBucketFinding (now nd k) bucketName) = ''S3 Bucket Publicly Accessible''
         \<and> ResourceID (publicBucketFinding (now nd k) bucketName) = bucketName"
  using assms(1,2) rangeGrants_first_public [OF assms(3,4)]
  by (simp add: checkBucketPublicAccess_def addFinding_def publicBucketFinding_def
      NewCriticalFinding_def NewFinding_def)

theorem one_public_access_finding_witness:
  "Name sample_bucket = Some ''logs''
   \<and> GetBucketAcl sample_api ''logs'' =
       Inr ([\<lparr>Grantee = Some \<lparr>URI = None\<rparr>\<rparr>] @ \<lparr>Grantee = Some \<lparr>URI = Some AuthenticatedUsers\<rparr>\<rparr>
            # [\<lparr>Grantee = Some \<lparr>URI = Some AllUsers\<rparr>\<rparr>, \<lparr>Grantee = None\<rparr>])
   \<and> Grantee \<lparr>Grantee = Some \<lparr>URI = None\<rparr>\<rparr> \<noteq> None
   \<and> \<not> publicGrant \<lparr>Grantee = Some \<lparr>URI = None\<rparr>\<rparr>
   \<and> publicGrant \<lparr>Grantee = Some \<lparr>URI = Some AuthenticatedUsers\<rparr>\<rparr>
   \<and> 2 \<le> length (filter publicGrant
              ([\<lparr>Grantee = Some \<lparr>URI = None\<rparr>\<rparr>] @ \<lparr>Grantee = Some \<lparr>URI = Some AuthenticatedUsers\<rparr>\<rparr>
               # [\<lparr>Grantee = Some \<lparr>URI = Some AllUsers\<rparr>\<rparr>, \<lparr>Grantee = None\<rparr>]))
   \<and> length (findings (snd (case checkBucketPublicAccess sample_api sample_nondet sample_bucket (0, sample_scanner) of
                 Done ks \<Rightarrow> ks))) = 1"
proof -
  have h1: "Name sample_bucket = Some ''logs''" by (simp add: sample_bucket_def)
  have h2: "GetBucketAcl sample_api ''logs'' =
       Inr ([\<lparr>Grantee = Some \<lparr>URI = None\<rparr>\<rparr>] @ \<lparr>Grantee = Some \<lparr>URI = Some AuthenticatedUsers\<rparr>\<rparr>
            # [\<lparr>Grantee = Some \<lparr>URI = Some AllUsers\<rparr>\<rparr>, \<lparr>Grantee = None\<rparr>])"
    by (simp add: sample_api_def)
  have h3: "\<forall>g \<in> set [\<lparr>Grantee = Some \<lparr>URI = None\<rparr>\<rparr>]. Grantee g \<noteq> None \<and> \<not> publicGrant g"
    by (simp add: publicGrant_def)
  have h4: "publicGrant \<lparr>Grantee = Some \<lparr>URI = Some AuthenticatedUsers\<rparr>\<rparr>"
    by (simp add: publicGrant_def)
  have h5: "2 \<le> length (filter publicGrant
              ([\<lparr>Grantee = Some \<lparr>URI = None\<rparr>\<rparr>] @ \<lparr>Grantee = Some \<lparr>URI = Some AuthenticatedUsers\<rparr>\<rparr>
               # [\<lparr>Grantee = Some \<lparr>URI = Some AllUsers\<rparr>\<rparr>, \<lparr>Grantee = None\<rparr>]))"
    by (simp add: publicGrant_def)
  from one_public_access_finding [OF h1 h2 h3 h4 h5, of sample_nondet 0 sample_scanner]
  have "length (findings (snd (case checkBucketPublicAccess sample_api sample_nondet sample_bucket (0, sample_scanner) of
                 Done ks \<Rightarrow> ks))) = 1"
    by (simp add: sample_scanner_def)
  moreover have "Grantee \<lparr>Grantee = Some \<lparr>URI = None\<rparr>\<rparr> \<noteq> None"
    and "\<not> publicGrant \<lparr>Grantee = Some \<lparr>URI = None\<rparr>\<rparr>"
    by (simp_all add: publicGrant_def)
  ultimately show ?thesis using h1 h2 h4 h5 by (intro conjI)
qed

text \<open>
  Claim C8. A user whose login profile cannot be retrieved gets no MFA finding, whatever
  the list of MFA devices would be; a user with a login profile and an empty list of MFA
  devices gets exactly one finding, of severity HIGH.
\<close>

theorem mfa_skip_and_finding:
  assumes "UserName user = Some userName"
  shows "(GetLoginProfile a userName \<noteq> None \<longrightarrow>
            checkUserMFA a nd user (k, s) = Done (k, s))
       \<and> (GetLoginProfile a userName = None \<and> ListMFADevices a userName = Inr [] \<longrightarrow>
            checkUserMFA a nd user (k, s) =
              Done (Suc k, s\<lparr>findings := findings s @ [(noMFAFinding (now nd k) userName)\<lparr>Region := region s\<rparr>]\<rparr>)
            \<and> Severity (noMFAFinding (now nd k) userName) = SeverityHigh
            \<and> Title (noMFAFinding (now nd k) userName) = ''IAM User Without MFA''
            \<and> ResourceID (noMFAFinding (now nd k) userName) = userName)"
  using assms
  by (auto simp: checkUserMFA_def addFinding_def noMFAFinding_def NewHighFinding_def NewFinding_def)

theorem mfa_skip_and_finding_witness:
  "UserName \<lparr>UserName = Some ''ci-bot''\<rparr> = Some ''ci-bot''
   \<and> GetLoginProfile sample_api ''ci-bot'' \<noteq> None
   \<and> ListMFADevices sample_api ''ci-bot'' = Inr []
   \<and> checkUserMFA sample_api sample_nondet \<lparr>UserName = Some ''ci-bot''\<rparr> (0, sample_scanner) = Done (0, sample_scanner)
   \<and> UserName \<lparr>UserName = Some ''alice''\<rparr> = Some ''alice''
   \<and> GetLoginProfile sample_api ''alice'' = None
   \<and> ListMFADevices sample_api ''alice'' = Inr []
   \<and> length (findings (snd (case checkUserMFA sample_api sample_nondet \<lparr>UserName = Some ''alice''\<rparr> (0, sample_scanner) of
                 Done ks \<Rightarrow> ks))) = 1"
proof -
  have b1: "UserName \<lparr>UserName = Some ''ci-bot''\<rparr> = Some ''ci-bot''" by simp
  have b2: "GetLoginProfile sample_api ''ci-bot'' \<noteq> None" by (simp add: sample_api_def)
  have b3: "ListMFADevices sample_api ''ci-bot'' = Inr []" by (simp add: sample_api_def)
  have a1: "UserName \<lparr>UserName = Some ''alice''\<rparr> = Some ''alice''" by simp
  have a2: "GetLoginProfile sample_api ''alice'' = None" by (simp add: sample_api_def)
  have a3: "ListMFADevices sample_api ''alice'' = Inr []" by (simp add: sample_api_def)
  have skip: "checkUserMFA sample_api sample_nondet \<lparr>UserName = Some ''ci-bot''\<rparr> (0, sample_scanner) = Done (0, sample_scanner)"
    using mfa_skip_and_finding [OF b1, of sample_api sample_nondet 0 sample_scanner] b2 by blast
  have one: "length (findings (snd (case checkUserMFA sample_api sample_nondet \<lparr>UserName = Some ''alice''\<rparr> (0, sample_scanner) of
                 Done ks \<Rightarrow> ks))) = 1"
    using mfa_skip_and_finding [OF a1, of sample_api sample_nondet 0 sample_scanner] a2 a3
    by (simp add: sample_scanner_def)
  from b1 b2 b3 skip a1 a2 a3 one show ?thesis by (intro conjI)
qed

section \<open>Every check only appends\<close>

lemma rebase_Panic [simp]: "rebase s Panic = Panic"
  by (simp add: rebase_def)

lemma rebase_Done [simp]: "rebase s (Done (k, t)) = Done (k, s\<lparr>findings := findings s @ findings t\<rparr>)"
  by (simp add: rebase_def)

lemma appender_Done: "appender Done"
  by (simp add: appender_def)

lemma appender_Panic: "appender (\<lambda>ks. Panic)"
  by (simp add: appender_def)

lemma appender_emit: "appender (\<lambda>(k, s). Done (Suc k, addFinding (mk k) s))"
  by (simp add: appender_def addFinding_def)

lemma appenderD: "appender f \<Longrightarrow> f (k, s) = rebase s (f (k, s\<lparr>findings := []\<rparr>))"
  unfolding appender_def by blast

text \<open>On an empty store the result is the store with what was appended.\<close>

lemma appender_empty:
  assumes "appender f" and "f (k, s\<lparr>findings := []\<rparr>) = Done (k1, t1)"
  shows "t1 = s\<lparr>findings := findings t1\<rparr>"
proof -
  have "s\<lparr>findings := []\<rparr>\<lparr>findings := []\<rparr> = s\<lparr>findings := []\<rparr>" by simp
  with appenderD [OF assms(1), of k "s\<lparr>findings := []\<rparr>"]
  have "f (k, s\<lparr>findings := []\<rparr>) = rebase (s\<lparr>findings := []\<rparr>) (f (k, s\<lparr>findings := []\<rparr>))"
    by (simp only:)
  then have "Done (k1, t1) = rebase (s\<lparr>findings := []\<rparr>) (Done (k1, t1))"
    by (simp only: assms(2))
  also have "\<dots> = Done (k1, s\<lparr>findings := findings t1\<rparr>)"
    by simp
  finally show ?thesis by (simp only: outcome.inject prod.inject simp_thms)
qed


lemma appender_andThen:
  assumes f: "appender f" and g: "appender g"
  shows "appender (andThen f g)"
  unfolding appender_def
proof (intro allI)
  fix k :: nat and s :: Scanner
  let ?e = "s\<lparr>findings := []\<rparr>"
  show "andThen f g (k, s) = rebase s (andThen f g (k, ?e))"
  proof (cases "f (k, ?e)")
    case Panic
    then have "f (k, s) = Panic" using appenderD [OF f, of k s] by simp
    with Panic show ?thesis by (simp add: andThen_def)
  next
    case (Done ks1)
    obtain k1 t1 where ks1: "ks1 = (k1, t1)" by (cases ks1)
    define q where "q = findings t1"
    have "t1 = s\<lparr>findings := q\<rparr>"
      unfolding q_def using appender_empty [OF f, of k s k1 t1] Done ks1 by blast
    then have fe: "f (k, ?e) = Done (k1, s\<lparr>findings := q\<rparr>)" using Done ks1 by simp
    have fs: "f (k, s) = Done (k1, s\<lparr>findings := findings s @ q\<rparr>)"
      using appenderD [OF f, of k s] fe by simp
    have g1: "g (k1, s\<lparr>findings := findings s @ q\<rparr>) =
                rebase (s\<lparr>findings := findings s @ q\<rparr>) (g (k1, ?e))"
      using appenderD [OF g, of k1 "s\<lparr>findings := findings s @ q\<rparr>"] by simp
    have g2: "g (k1, s\<lparr>findings := q\<rparr>) = rebase (s\<lparr>findings := q\<rparr>) (g (k1, ?e))"
      using appenderD [OF g, of k1 "s\<lparr>findings := q\<rparr>"] by simp
    have l: "andThen f g (k, s) = rebase (s\<lparr>findings := findings s @ q\<rparr>) (g (k1, ?e))"
      using fs g1 by (simp add: andThen_def)
    have r: "andThen f g (k, ?e) = rebase (s\<lparr>findings := q\<rparr>) (g (k1, ?e))"
      using fe g2 by (simp add: andThen_def)
    show ?thesis unfolding l r
      by (cases "g (k1, ?e)") auto
  qed
qed



lemma appender_checkBucketEncryption: "appender (checkBucketEncryption a nd bucket)"
  unfolding appender_def
  by (auto simp: checkBucketEncryption_def addFinding_def split: option.splits)

lemma rangeGrants_rebase:
  "rangeGrants nd bucketName grants (k, s) =
     rebase s (rangeGrants nd bucketName grants (k, s\<lparr>findings := []\<rparr>))"
  by (induction grants) (auto simp: addFinding_def split: option.splits)

lemma appender_checkBucketPublicAccess: "appender (checkBucketPublicAccess a nd bucket)"
  unfolding appender_def
  by (auto simp: checkBucketPublicAccess_def rangeGrants_rebase [symmetric] split: option.splits sum.splits)

lemma appender_checkBucketVersioning: "appender (checkBucketVersioning a nd bucket)"
  unfolding appender_def
  by (auto simp: checkBucketVersioning_def addFinding_def split: option.splits sum.splits)

lemma checkBuckets_Cons:
  "checkBuckets a nd (bucket # rest) =
     andThen (checkBucketEncryption a nd bucket)
       (andThen (checkBucketPublicAccess a nd bucket)
          (andThen (checkBucketVersioning a nd bucket) (checkBuckets a nd rest)))"
  by (rule ext) (simp add: andThen_def split: outcome.splits)

lemma checkBuckets_Nil: "checkBuckets a nd [] = Done"
  by (rule ext) simp

lemma appender_checkBuckets: "appender (checkBuckets a nd buckets)"
proof (induction buckets)
  case Nil
  show ?case unfolding checkBuckets_Nil by (rule appender_Done)
next
  case (Cons bucket rest)
  show ?case unfolding checkBuckets_Cons
    by (intro appender_andThen appender_checkBucketEncryption appender_checkBucketPublicAccess
        appender_checkBucketVersioning Cons.IH)
qed


lemma rangeCriticalPorts_Cons:
  "(\<lambda>ks. Done (rangeCriticalPorts nd g n lo hi ((port, service) # rest) ks)) =
     andThen (if port \<ge> lo \<and> port \<le> hi
              then (\<lambda>(k, s). Done (Suc k, addFinding (portFinding (now nd k) g n port service) s))
              else Done)
       (\<lambda>ks. Done (rangeCriticalPorts nd g n lo hi rest ks))"
  by (rule ext) (auto simp: andThen_def)

lemma appender_rangeCriticalPorts:
  "appender (\<lambda>ks. Done (rangeCriticalPorts nd g n lo hi ord ks))"
proof (induction ord)
  case Nil
  show ?case by (simp add: appender_def)
next
  case (Cons e rest)
  obtain port service where e: "e = (port, service)" by (cases e)
  have "appender (if port \<ge> lo \<and> port \<le> hi
              then (\<lambda>(k, s). Done (Suc k, addFinding (portFinding (now nd k) g n port service) s))
              else Done)"
    using appender_emit [of "\<lambda>k. portFinding (now nd k) g n port service"] appender_Done by simp
  then show ?case unfolding e rangeCriticalPorts_Cons
    by (rule appender_andThen) (rule Cons.IH)
qed

lemma checkPublicAccess_andThen:
  "(\<lambda>ks. Done (checkPublicAccess nd g n lo hi ks)) =
     andThen (\<lambda>(k, s). Done (rangeCriticalPorts nd g n lo hi (rangeOrder nd k) (Suc k, s)))
       (if lo = 0 \<and> hi = 65535
        then (\<lambda>(k, s). Done (Suc k, addFinding (allPortsFinding (now nd k) g n) s))
        else Done)"
  by (rule ext) (auto simp: andThen_def checkPublicAccess_def split: prod.splits)

lemma appender_checkPublicAccess:
  "appender (\<lambda>ks. Done (checkPublicAccess nd g n lo hi ks))"
proof -
  have 1: "appender (\<lambda>(k, s). Done (rangeCriticalPorts nd g n lo hi (rangeOrder nd k) (Suc k, s)))"
    unfolding appender_def
  proof (intro allI)
    fix k :: nat and s :: Scanner
    show "(case (k, s) of (k, s) \<Rightarrow> Done (rangeCriticalPorts nd g n lo hi (rangeOrder nd k) (Suc k, s))) =
          rebase s (case (k, s\<lparr>findings := []\<rparr>) of
                      (k, s) \<Rightarrow> Done (rangeCriticalPorts nd g n lo hi (rangeOrder nd k) (Suc k, s)))"
      using appenderD [OF appender_rangeCriticalPorts, of nd g n lo hi "rangeOrder nd k" "Suc k" s]
      by simp
  qed
  have 2: "appender (if lo = 0 \<and> hi = 65535
        then (\<lambda>(k, s). Done (Suc k, addFinding (allPortsFinding (now nd k) g n) s))
        else Done)"
    using appender_emit [of "\<lambda>k. allPortsFinding (now nd k) g n"] appender_Done by simp
  show ?thesis unfolding checkPublicAccess_andThen
    by (rule appender_andThen [OF 1 2])
qed

lemma checkIpRanges_Cons:
  "checkIpRanges nd g n lo hi (ipRange # rest) =
     (case CidrIp ipRange of
        None \<Rightarrow> (\<lambda>ks. Panic)
      | Some cidr \<Rightarrow>
          if cidr = ''0.0.0.0/0''
          then andThen (\<lambda>ks. Done (checkPublicAccess nd g n lo hi ks)) (checkIpRanges nd g n lo hi rest)
          else checkIpRanges nd g n lo hi rest)"
  by (rule ext) (simp add: andThen_def split: option.splits)

lemma appender_checkIpRanges: "appender (checkIpRanges nd g n lo hi ranges)"
proof (induction ranges)
  case Nil
  have "checkIpRanges nd g n lo hi [] = Done" by (rule ext) simp
  then show ?case by (simp add: appender_Done)
next
  case (Cons ipRange rest)
  show ?case unfolding checkIpRanges_Cons
    by (auto split: option.splits
        intro: appender_Panic appender_andThen appender_checkPublicAccess Cons.IH)
qed

lemma appender_checkIpPermission: "appender (checkIpPermission nd g n permission)"
proof -
  have "checkIpPermission nd g n permission =
          checkIpRanges nd g n (case FromPort permission of Some p \<Rightarrow> p | None \<Rightarrow> 0)
            (case ToPort permission of Some p \<Rightarrow> p | None \<Rightarrow> 0) (IpRanges permission)"
    by (rule ext) (simp add: checkIpPermission_def)
  then show ?thesis by (simp add: appender_checkIpRanges)
qed

lemma appender_checkIpPermissions: "appender (checkIpPermissions nd g n permissions)"
proof (induction permissions)
  case Nil
  have "checkIpPermissions nd g n [] = Done" by (rule ext) simp
  then show ?case by (simp add: appender_Done)
next
  case (Cons permission rest)
  have "checkIpPermissions nd g n (permission # rest) =
          andThen (checkIpPermission nd g n permission) (checkIpPermissions nd g n rest)"
    by (rule ext) (simp add: andThen_def split: outcome.splits)
  then show ?case
    using appender_andThen [OF appender_checkIpPermission Cons.IH] by simp
qed

lemma appender_checkSecurityGroupRules: "appender (checkSecurityGroupRules nd sg)"
proof -
  have "checkSecurityGroupRules nd sg =
          (case GroupId sg of
             None \<Rightarrow> (\<lambda>ks. Panic)
           | Some sgID \<Rightarrow>
               (case GroupName sg of
                  None \<Rightarrow> (\<lambda>ks. Panic)
                | Some sgName \<Rightarrow> checkIpPermissions nd sgID sgName (IpPermissions sg)))"
    by (rule ext) (simp add: checkSecurityGroupRules_def split: option.splits)
  then show ?thesis
    by (auto split: option.splits intro: appender_Panic appender_checkIpPermissions)
qed

lemma appender_checkSecurityGroups: "appender (checkSecurityGroups nd groups)"
proof (induction groups)
  case Nil
  have "checkSecurityGroups nd [] = Done" by (rule ext) simp
  then show ?case by (simp add: appender_Done)
next
  case (Cons sg rest)
  have "checkSecurityGroups nd (sg # rest) =
          andThen (checkSecurityGroupRules nd sg) (checkSecurityGroups nd rest)"
    by (rule ext) (simp add: andThen_def split: outcome.splits)
  then show ?case
    using appender_andThen [OF appender_checkSecurityGroupRules Cons.IH] by simp
qed

lemma appender_checkUserMFA: "appender (checkUserMFA a nd user)"
  unfolding appender_def
  by (auto simp: checkUserMFA_def addFinding_def split: option.splits sum.splits)

lemma rangeAccessKeys_rebase:
  "rangeAccessKeys keys (k, s) = rebase s (rangeAccessKeys keys (k, s\<lparr>findings := []\<rparr>))"
  by (induction keys) (auto split: option.splits)

lemma appender_checkUserAccessKeys: "appender (checkUserAccessKeys a user)"
  unfolding appender_def
  by (auto simp: checkUserAccessKeys_def rangeAccessKeys_rebase [symmetric] split: option.splits sum.splits)

lemma appender_checkUsers: "appender (checkUsers a nd users)"
proof (induction users)
  case Nil
  have "checkUsers a nd [] = Done" by (rule ext) simp
  then show ?case by (simp add: appender_Done)
next
  case (Cons user rest)
  have "checkUsers a nd (user # rest) =
          andThen (checkUserMFA a nd user) (andThen (checkUserAccessKeys a user) (checkUsers a nd rest))"
    by (rule ext) (simp add: andThen_def split: outcome.splits)
  then show ?case
    using appender_andThen [OF appender_checkUserMFA appender_andThen [OF appender_checkUserAccessKeys Cons.IH]]
    by simp
qed

section \<open>The sequential scan\<close>

lemma scanS3_rebase:
  "scanS3 a nd (k, s) =
     (case scanS3 a nd (k, s\<lparr>findings := []\<rparr>) of
        Panic \<Rightarrow> Panic
      | Done (err, k', s') \<Rightarrow> Done (err, k', s\<lparr>findings := findings s @ findings s'\<rparr>))"
proof (cases "ListBuckets a")
  case (Inl cause)
  then show ?thesis by (simp add: scanS3_def)
next
  case (Inr buckets)
  show ?thesis
    using appenderD [OF appender_checkBuckets, of a nd buckets k s] Inr
    by (simp add: scanS3_def rebase_def split: outcome.splits prod.splits)
qed

lemma scanSecurityGroups_rebase:
  "scanSecurityGroups a nd (k, s) =
     (case scanSecurityGroups a nd (k, s\<lparr>findings := []\<rparr>) of
        Panic \<Rightarrow> Panic
      | Done (err, k', s') \<Rightarrow> Done (err, k', s\<lparr>findings := findings s @ findings s'\<rparr>))"
proof (cases "DescribeSecurityGroups a")
  case (Inl cause)
  then show ?thesis by (simp add: scanSecurityGroups_def)
next
  case (Inr groups)
  show ?thesis
    using appenderD [OF appender_checkSecurityGroups, of nd groups k s] Inr
    by (simp add: scanSecurityGroups_def rebase_def split: outcome.splits prod.splits)
qed

lemma scanIAM_rebase:
  "scanIAM a nd (k, s) =
     (case scanIAM a nd (k, s\<lparr>findings := []\<rparr>) of
        Panic \<Rightarrow> Panic
      | Done (err, k', s') \<Rightarrow> Done (err, k', s\<lparr>findings := findings s @ findings s'\<rparr>))"
proof (cases "ListUsers a")
  case (Inl cause)
  then show ?thesis by (simp add: scanIAM_def)
next
  case (Inr users)
  show ?thesis
    using appenderD [OF appender_checkUsers, of a nd users k s] Inr
    by (simp add: scanIAM_def rebase_def split: outcome.splits prod.splits)
qed

lemma scanS3_appends:
  assumes "scanS3 a nd (k, s) = Done (err, k', s')"
  shows "s' = s\<lparr>findings := findings s @ drop (length (findings s)) (findings s')\<rparr>"
  using assms scanS3_rebase [of a nd k s]
  by (auto split: outcome.splits prod.splits)

lemma scanSecurityGroups_appends:
  assumes "scanSecurityGroups a nd (k, s) = Done (err, k', s')"
  shows "s' = s\<lparr>findings := findings s @ drop (length (findings s)) (findings s')\<rparr>"
  using assms scanSecurityGroups_rebase [of a nd k s]
  by (auto split: outcome.splits prod.splits)

lemma scanS3_failure:
  "scanS3 a nd ks = Done (Some e, ks') \<Longrightarrow> ks' = ks"
  by (auto simp: scanS3_def split: sum.splits outcome.splits)

lemma scanSecurityGroups_failure:
  "scanSecurityGroups a nd ks = Done (Some e, ks') \<Longrightarrow> ks' = ks"
  by (auto simp: scanSecurityGroups_def split: sum.splits outcome.splits)

lemma scanIAM_failure:
  "scanIAM a nd ks = Done (Some e, ks') \<Longrightarrow> ks' = ks"
  by (auto simp: scanIAM_def split: sum.splits outcome.splits)

text \<open>
  Claim C6. \<open>Scan\<close> runs the storage check, then the security group check on the state
  the storage check left, then the identity check. The first check that returns an error
  ends the run: the error comes back wrapped as "S3 scan failed: ", "Security Group scan
  failed: " or "IAM scan failed: " followed by the cause, no later check is run (nothing
  is assumed of the later checks, which may even panic), and the store is the one the
  earlier checks left, which extends the initial store. In particular, when the listing
  of the security groups fails, the store is exactly the one left by the storage check.
\<close>

theorem Scan_aborts_at_first_failure:
  "(scanS3 a nd (0, s) = Done (Some e, k1, s1) \<longrightarrow>
      Scan a nd s = Done (Some (Errorf ''S3 scan failed: '' e), s))
   \<and> (scanS3 a nd (0, s) = Done (None, k1, s1)
        \<and> scanSecurityGroups a nd (k1, s1) = Done (Some e, k2, s2) \<longrightarrow>
      Scan a nd s = Done (Some (Errorf ''Security Group scan failed: '' e), s1)
      \<and> findings s1 = findings s @ drop (length (findings s)) (findings s1))
   \<and> (scanS3 a nd (0, s) = Done (None, k1, s1)
        \<and> scanSecurityGroups a nd (k1, s1) = Done (None, k2, s2)
        \<and> scanIAM a nd (k2, s2) = Done (Some e, k3, s3) \<longrightarrow>
      Scan a nd s = Done (Some (Errorf ''IAM scan failed: '' e), s2)
      \<and> findings s1 = findings s @ drop (length (findings s)) (findings s1)
      \<and> findings s2 = findings s1 @ drop (length (findings s1)) (findings s2))
   \<and> (scanS3 a nd (0, s) = Done (None, k1, s1) \<and> DescribeSecurityGroups a = Inl cause \<longrightarrow>
      Scan a nd s =
        Done (Some (Errorf ''Security Group scan failed: ''
                      (Errorf ''failed to describe security groups: '' cause)), s1))
   \<and> Error (Errorf ''S3 scan failed: '' e) = ''S3 scan failed: '' @ Error e
   \<and> Error (Errorf ''Security Group scan failed: '' e) = ''Security Group scan failed: '' @ Error e
   \<and> Error (Errorf ''IAM scan failed: '' e) = ''IAM scan failed: '' @ Error e"
proof (intro conjI impI)
  assume "scanS3 a nd (0, s) = Done (Some e, k1, s1)"
  then show "Scan a nd s = Done (Some (Errorf ''S3 scan failed: '' e), s)"
    using scanS3_failure [of a nd "(0, s)" e "(k1, s1)"] by (simp add: Scan_def)
next
  assume h: "scanS3 a nd (0, s) = Done (None, k1, s1)
        \<and> scanSecurityGroups a nd (k1, s1) = Done (Some e, k2, s2)"
  then show "Scan a nd s = Done (Some (Errorf ''Security Group scan failed: '' e), s1)"
    using scanSecurityGroups_failure [of a nd "(k1, s1)" e "(k2, s2)"] by (simp add: Scan_def)
  from h show "findings s1 = findings s @ drop (length (findings s)) (findings s1)"
    using scanS3_appends [of a nd 0 s None k1 s1]
    by (metis Scanner.select_convs(2) Scanner.surjective Scanner.update_convs(2))
next
  assume h: "scanS3 a nd (0, s) = Done (None, k1, s1)
        \<and> scanSecurityGroups a nd (k1, s1) = Done (None, k2, s2)
        \<and> scanIAM a nd (k2, s2) = Done (Some e, k3, s3)"
  then show "Scan a nd s = Done (Some (Errorf ''IAM scan failed: '' e), s2)"
    using scanIAM_failure [of a nd "(k2, s2)" e "(k3, s3)"] by (simp add: Scan_def)
  from h show "findings s1 = findings s @ drop (length (findings s)) (findings s1)"
    using scanS3_appends [of a nd 0 s None k1 s1]
    by (metis Scanner.select_convs(2) Scanner.surjective Scanner.update_convs(2))
  from h show "findings s2 = findings s1 @ drop (length (findings s1)) (findings s2)"
    using scanSecurityGroups_appends [of a nd k1 s1 None k2 s2]
    by (metis Scanner.select_convs(2) Scanner.surjective Scanner.update_convs(2))
next
  assume "scanS3 a nd (0, s) = Done (None, k1, s1) \<and> DescribeSecurityGroups a = Inl cause"
  then show "Scan a nd s =
        Done (Some (Errorf ''Security Group scan failed: ''
                      (Errorf ''failed to describe security groups: '' cause)), s1)"
    by (simp add: Scan_def scanSecurityGroups_def)
qed simp_all


lemmas sample_defs =
  sample_api_def sample_bucket_def sample_scanner_def sample_nondet_def
  sg_denied_api_def s3_denied_api_def iam_denied_api_def

lemmas check_defs =
  scanS3_def scanSecurityGroups_def scanIAM_def
  checkBucketEncryption_def checkBucketPublicAccess_def checkBucketVersioning_def
  checkUserMFA_def checkUserAccessKeys_def checkSecurityGroupRules_def checkIpPermission_def
  checkPublicAccess_def AllUsers_def AuthenticatedUsers_def addFinding_def

theorem Scan_aborts_at_first_failure_witness:
  "scanS3 sg_denied_api sample_nondet (0, sample_scanner) =
     Done (None, 1, addFinding (publicBucketFinding 1000 ''logs'') sample_scanner)
   \<and> DescribeSecurityGroups sg_denied_api = Inl (ApiError ''UnauthorizedOperation'')
   \<and> Scan sg_denied_api sample_nondet sample_scanner =
       Done (Some (Errorf ''Security Group scan failed: ''
                     (Errorf ''failed to describe security groups: '' (ApiError ''UnauthorizedOperation''))),
             addFinding (publicBucketFinding 1000 ''logs'') sample_scanner)
   \<and> scanS3 s3_denied_api sample_nondet (0, sample_scanner) =
       Done (Some (Errorf ''failed to list S3 buckets: '' (ApiError ''AccessDenied'')), 0, sample_scanner)
   \<and> Scan s3_denied_api sample_nondet sample_scanner =
       Done (Some (Errorf ''S3 scan failed: ''
                     (Errorf ''failed to list S3 buckets: '' (ApiError ''AccessDenied''))),
             sample_scanner)
   \<and> scanS3 iam_denied_api sample_nondet (0, sample_scanner) =
       Done (None, 1, addFinding (publicBucketFinding 1000 ''logs'') sample_scanner)
   \<and> scanSecurityGroups iam_denied_api sample_nondet
         (1, addFinding (publicBucketFinding 1000 ''logs'') sample_scanner) =
       Done (None, 1, addFinding (publicBucketFinding 1000 ''logs'') sample_scanner)
   \<and> scanIAM iam_denied_api sample_nondet
         (1, addFinding (publicBucketFinding 1000 ''logs'') sample_scanner) =
       Done (Some (Errorf ''failed to list IAM users: '' (ApiError ''AccessDenied'')),
             1, addFinding (publicBucketFinding 1000 ''logs'') sample_scanner)
   \<and> Scan iam_denied_api sample_nondet sample_scanner =
       Done (Some (Errorf ''IAM scan failed: ''
                     (Errorf ''failed to list IAM users: '' (ApiError ''AccessDenied''))),
             addFinding (publicBucketFinding 1000 ''logs'') sample_scanner)"
proof -
  let ?s1 = "addFinding (publicBucketFinding 1000 ''logs'') sample_scanner"
  have a1: "scanS3 sg_denied_api sample_nondet (0, sample_scanner) = Done (None, 1, ?s1)"
    by (simp add: sample_defs check_defs)
  have a2: "DescribeSecurityGroups sg_denied_api = Inl (ApiError ''UnauthorizedOperation'')"
    by (simp add: sample_defs)
  have b1: "scanS3 s3_denied_api sample_nondet (0, sample_scanner) =
       Done (Some (Errorf ''failed to list S3 buckets: '' (ApiError ''AccessDenied'')), 0, sample_scanner)"
    by (simp add: sample_defs check_defs)
  have c1: "scanS3 iam_denied_api sample_nondet (0, sample_scanner) = Done (None, 1, ?s1)"
    by (simp add: sample_defs check_defs)
  have c2: "scanSecurityGroups iam_denied_api sample_nondet (1, ?s1) = Done (None, 1, ?s1)"
    by (simp add: sample_defs check_defs)
  have c3: "scanIAM iam_denied_api sample_nondet (1, ?s1) =
       Done (Some (Errorf ''failed to list IAM users: '' (ApiError ''AccessDenied'')), 1, ?s1)"
    by (simp add: sample_defs check_defs)
  have a: "Scan sg_denied_api sample_nondet sample_scanner =
       Done (Some (Errorf ''Security Group scan failed: ''
                     (Errorf ''failed to describe security groups: '' (ApiError ''UnauthorizedOperation''))),
             ?s1)"
    using Scan_aborts_at_first_failure
      [where a = sg_denied_api and nd = sample_nondet and s = sample_scanner and ?k1.0 = 1
         and ?s1.0 = ?s1 and cause = "ApiError ''UnauthorizedOperation''"]
      a1 a2 by blast
  have b: "Scan s3_denied_api sample_nondet sample_scanner =
       Done (Some (Errorf ''S3 scan failed: ''
                     (Errorf ''failed to list S3 buckets: '' (ApiError ''AccessDenied''))),
             sample_scanner)"
    using Scan_aborts_at_first_failure
      [where a = s3_denied_api and nd = sample_nondet and s = sample_scanner and ?k1.0 = 0
         and ?s1.0 = sample_scanner
         and e = "Errorf ''failed to list S3 buckets: '' (ApiError ''AccessDenied'')"]
      b1 by blast
  have c: "Scan iam_denied_api sample_nondet sample_scanner =
       Done (Some (Errorf ''IAM scan failed: ''
                     (Errorf ''failed to list IAM users: '' (ApiError ''AccessDenied''))),
             ?s1)"
    using Scan_aborts_at_first_failure
      [where a = iam_denied_api and nd = sample_nondet and s = sample_scanner and ?k1.0 = 1
         and ?s1.0 = ?s1 and ?k2.0 = 1 and ?s2.0 = ?s1 and ?k3.0 = 1 and ?s3.0 = ?s1
         and e = "Errorf ''failed to list IAM users: '' (ApiError ''AccessDenied'')"]
      c1 c2 c3 by blast
  from a1 a2 a b1 b c1 c2 c3 c show ?thesis by (intro conjI)
qed

end
